theory Spec2Isabelle
  imports Complex_Main
begin

unbundle bit_operations_syntax

section \<open>Data model\<close>

text \<open>
  A \<open>Buffer\<close> is a list of bytes; Isabelle's \<open>char\<close> is one byte, so a buffer and a
  UTF-8 encoded text are both a \<open>string\<close>. Javascript numbers that count things (ids,
  sizes, modes, timestamps) are natural numbers.
\<close>

type_synonym bytes = string

text \<open>
  The values \<open>JSON.parse\<close> can produce, and \<open>undefined\<close> (what reading a missing
  property gives). An object is the list of its own properties, each key once.
\<close>

datatype jsval =
    JUndefined
  | JNull
  | JBool bool
  | JNum rat
  | JStr string
  | JArr "jsval list"
  | JObj "(string \<times> jsval) list"

text \<open>\<open>types.ts\<close>: the rows of the tables and the scanner's entries.\<close>

record PackageInfo =
  name :: jsval
  version :: jsval
  path :: string

record PackageRow = PackageInfo +
  pkgId :: nat

record BlobInfo =
  hash :: string
  content :: bytes
  originalSize :: nat
  compressedSize :: nat

record FileRecord =
  recId :: nat
  packageId :: nat
  recRelativePath :: string
  blobHash :: string
  recMode :: nat
  recMtime :: nat

record FileWithPath = FileRecord +
  packagePath :: string

section \<open>Store\<close>

text \<open>
  The database of \<open>store.ts\<close>: one list of rows per table, in rowid order. The
  constraints of \<open>CREATE_TABLES_SQL\<close> (primary keys, \<open>UNIQUE\<close>) are not part of the
  type: each statement below is written out as SQLite runs it, and that the constraints
  hold is proved. Foreign keys are declared but not enforced (SQLite's default).
\<close>

record store =
  t_metadata :: "(string \<times> string) list"
  t_packages :: "PackageRow list"
  t_blobs :: "BlobInfo list"
  t_files :: "FileRecord list"

definition SCHEMA_VERSION :: string where
  "SCHEMA_VERSION = ''1''"

definition empty_db :: store where
  "empty_db = \<lparr>t_metadata = [], t_packages = [], t_blobs = [], t_files = []\<rparr>"

text \<open>\<open>INTEGER PRIMARY KEY AUTOINCREMENT\<close> in a table no row is ever deleted from:
  one more than the largest id in use.\<close>

definition next_id :: "nat list \<Rightarrow> nat" where
  "next_id ids = Suc (foldr max ids 0)"

text \<open>\<open>INSERT OR REPLACE INTO metadata\<close>: a row with the key is deleted, the new row
  is added.\<close>

definition setMetadata :: "string \<Rightarrow> string \<Rightarrow> store \<Rightarrow> store" where
  "setMetadata k v s =
     s\<lparr>t_metadata := filter (\<lambda>r. fst r \<noteq> k) (t_metadata s) @ [(k, v)]\<rparr>"

definition getMetadata :: "string \<Rightarrow> store \<Rightarrow> string option" where
  "getMetadata k s = map_option snd (find (\<lambda>r. fst r = k) (t_metadata s))"

definition initSchema :: "store \<Rightarrow> store" where
  "initSchema s = setMetadata ''schema_version'' SCHEMA_VERSION s"

text \<open>\<open>new Store(dbPath)\<close>: the file's tables when it exists, empty tables when it
  does not (\<open>CREATE TABLE IF NOT EXISTS\<close>), then the schema version.\<close>

definition newStore :: "store option \<Rightarrow> store" where
  "newStore existing = initSchema (case existing of None \<Rightarrow> empty_db | Some s \<Rightarrow> s)"

definition same_package :: "PackageInfo \<Rightarrow> PackageRow \<Rightarrow> bool" where
  "same_package pkg r \<longleftrightarrow>
     name r = name pkg \<and> version r = version pkg \<and> path r = path pkg"

text \<open>
  \<open>INSERT INTO packages ... ON CONFLICT(name, version, path) DO UPDATE SET name = name
  RETURNING id\<close>: one statement. With a conflicting row, that row is updated (its name
  set to its own name) and its id returned; otherwise a row is added under a new id.
\<close>

definition insertPackage :: "PackageInfo \<Rightarrow> store \<Rightarrow> nat \<times> store" where
  "insertPackage pkg s =
     (case find (same_package pkg) (t_packages s) of
        Some r \<Rightarrow>
          (pkgId r,
           s\<lparr>t_packages :=
               map (\<lambda>q. if same_package pkg q then q\<lparr>name := name q\<rparr> else q) (t_packages s)\<rparr>)
      | None \<Rightarrow>
          (let i = next_id (map pkgId (t_packages s))
           in (i, s\<lparr>t_packages := t_packages s @
                 [\<lparr>name = name pkg, version = version pkg, path = path pkg, pkgId = i\<rparr>]\<rparr>)))"

definition getAllPackages :: "store \<Rightarrow> PackageRow list" where
  "getAllPackages s = t_packages s"

definition hasBlob :: "string \<Rightarrow> store \<Rightarrow> bool" where
  "hasBlob h s \<longleftrightarrow> find (\<lambda>b. hash b = h) (t_blobs s) \<noteq> None"

text \<open>\<open>INSERT OR IGNORE INTO blobs\<close>: a row whose hash is already a key is dropped.\<close>

definition insertBlob :: "BlobInfo \<Rightarrow> store \<Rightarrow> store" where
  "insertBlob blob s =
     (if find (\<lambda>b. hash b = hash blob) (t_blobs s) \<noteq> None then s
      else s\<lparr>t_blobs := t_blobs s @ [blob]\<rparr>)"


definition same_file :: "nat \<Rightarrow> string \<Rightarrow> FileRecord \<Rightarrow> bool" where
  "same_file pid rel r \<longleftrightarrow> packageId r = pid \<and> recRelativePath r = rel"

text \<open>
  \<open>INSERT INTO files ... ON CONFLICT(package_id, relative_path) DO UPDATE SET
  blob_hash, mode, mtime\<close>, as \<open>insertFile\<close> and the prepared statement of
  \<open>prepareInsertFile\<close> run it.
\<close>

definition insertFile :: "nat \<Rightarrow> string \<Rightarrow> string \<Rightarrow> nat \<Rightarrow> nat \<Rightarrow> store \<Rightarrow> store" where
  "insertFile pid rel h m t s =
     (if find (same_file pid rel) (t_files s) \<noteq> None
      then s\<lparr>t_files :=
             map (\<lambda>r. if same_file pid rel r
                       then r\<lparr>blobHash := h, recMode := m, recMtime := t\<rparr> else r) (t_files s)\<rparr>
      else s\<lparr>t_files := t_files s @
             [\<lparr>recId = next_id (map recId (t_files s)), packageId = pid,
               recRelativePath = rel, blobHash = h, recMode = m, recMtime = t\<rparr>]\<rparr>)"

text \<open>\<open>SELECT ... FROM files f JOIN packages p ON f.package_id = p.id\<close>: every file
  row with every package row of its package id, files in rowid order.\<close>

definition with_path :: "FileRecord \<Rightarrow> PackageRow \<Rightarrow> FileWithPath" where
  "with_path f p =
     \<lparr>recId = recId f, packageId = packageId f, recRelativePath = recRelativePath f,
      blobHash = blobHash f, recMode = recMode f, recMtime = recMtime f,
      packagePath = path p\<rparr>"

definition getAllFiles :: "store \<Rightarrow> FileWithPath list" where
  "getAllFiles s =
     concat (map (\<lambda>f. map (with_path f) (filter (\<lambda>p. pkgId p = packageId f) (t_packages s)))
               (t_files s))"

definition getTotalFileCount :: "store \<Rightarrow> nat" where
  "getTotalFileCount s = length (t_files s)"

text \<open>The rows of the blobs table under one key.\<close>

definition blob_rows :: "string \<Rightarrow> store \<Rightarrow> BlobInfo list" where
  "blob_rows h s = filter (\<lambda>b. hash b = h) (t_blobs s)"



text \<open>Sample rows and a sample database.\<close>

definition blob_a :: BlobInfo where
  "blob_a = \<lparr>hash = ''d1'', content = ''xx'', originalSize = 5, compressedSize = 2\<rparr>"

definition blob_b :: BlobInfo where
  "blob_b = \<lparr>hash = ''d1'', content = ''yyy'', originalSize = 7, compressedSize = 3\<rparr>"



section \<open>File system\<close>

text \<open>
  What the program sees of a directory tree: a regular file with its bytes, its permission
  bits and its modification time (ms); a directory with its entries in \<open>readdir\<close>
  order; and \<open>Special\<close>, an entry that is neither (\<open>isDirectory()\<close> and
  \<open>isFile()\<close> are both false: a socket, a fifo, a device). Symbolic links are followed
  by some calls and not by others; they are not modelled.
\<close>

datatype node =
    File bytes nat nat
  | Dir "(string \<times> node) list"
  | Special

datatype error =
    ENOENT
  | ENOTDIR
  | EISDIR
  | EIO
  | SourceNotFound
  | DatabaseNotFound
  | OutputExists
  | DecompressError

record FileEntry =
  relativePath :: string
  absolutePath :: string
  mode :: nat
  fsize :: nat
  mtime :: nat

record PackageWithFiles = PackageInfo +
  files :: "FileEntry list"

record FileTotals =
  totalFiles :: nat
  totalSize :: nat

record ScanResult = FileTotals +
  packages :: "PackageWithFiles list"

text \<open>
  \<open>path.join\<close> on two segments: an empty segment is ignored, the others are joined by
  the separator. (The normalisation of \<open>.\<close>, \<open>..\<close> and repeated separators is left out:
  \<open>readdir\<close> returns no such name.)
\<close>

definition path_join :: "string \<Rightarrow> string \<Rightarrow> string" where
  "path_join a b = (if a = [] then b else if b = [] then a else a @ ''/'' @ b)"

text \<open>\<open>path.relative(base, full)\<close> for a path below \<open>base\<close>, the only use the
  scanner makes of it.\<close>

definition path_relative :: "string \<Rightarrow> string \<Rightarrow> string" where
  "path_relative base full =
     (if take (Suc (length base)) full = base @ ''/'' then drop (Suc (length base)) full
      else full)"

definition startsWith :: "string \<Rightarrow> string \<Rightarrow> bool" where
  "startsWith s p \<longleftrightarrow> take (length p) s = p"

text \<open>The file type bits of \<open>stats.mode\<close> for a regular file (\<open>S_IFREG\<close>, octal
  100000).\<close>

definition S_IFREG :: nat where
  "S_IFREG = 32768"

fun lookup_child :: "node option \<Rightarrow> string \<Rightarrow> node option" where
  "lookup_child (Some (Dir es)) n = map_of es n"
| "lookup_child _ n = None"

definition existsSync :: "node option \<Rightarrow> bool" where
  "existsSync nd \<longleftrightarrow> nd \<noteq> None"

fun readdir :: "node option \<Rightarrow> error + (string \<times> node) list" where
  "readdir None = Inl ENOENT"
| "readdir (Some (Dir es)) = Inr es"
| "readdir (Some _) = Inl ENOTDIR"

fun readFile :: "node option \<Rightarrow> error + bytes" where
  "readFile None = Inl ENOENT"
| "readFile (Some (File c perm t)) = Inr c"
| "readFile (Some (Dir es)) = Inl EISDIR"
| "readFile (Some Special) = Inl EIO"

text \<open>
  A path is resolved from the root of the tree, component by component. Empty components
  and \<open>.\<close> are skipped; nothing outside the tree exists.
\<close>

fun split_on :: "char \<Rightarrow> string \<Rightarrow> string list" where
  "split_on c [] = [[]]"
| "split_on c (x # xs) =
     (if x = c then [] # split_on c xs
      else (case split_on c xs of [] \<Rightarrow> [[x]] | w # ws \<Rightarrow> (x # w) # ws))"

definition components :: "string \<Rightarrow> string list" where
  "components p = filter (\<lambda>c. c \<noteq> [] \<and> c \<noteq> ''.'') (split_on CHR ''/'' p)"

fun lookup :: "node option \<Rightarrow> string list \<Rightarrow> node option" where
  "lookup nd [] = nd"
| "lookup nd (n # ns) = lookup (lookup_child nd n) ns"

definition resolve_path :: "string \<Rightarrow> node option \<Rightarrow> string \<Rightarrow> node option" where
  "resolve_path rootPath tree p =
     (if p = rootPath then tree
      else if take (Suc (length rootPath)) p = rootPath @ ''/''
      then lookup tree (components (drop (Suc (length rootPath)) p))
      else None)"

section \<open>Scanner\<close>

text \<open>
  \<open>scanner.ts\<close>. A function that reads a directory through its path takes here the
  path and what the path names. \<open>JSON.parse\<close> is a parameter \<open>jp\<close>: \<open>None\<close> when it
  throws. The progress callback only reports and is left out.
\<close>

fun get_prop :: "jsval \<Rightarrow> string \<Rightarrow> jsval option" where
  "get_prop JUndefined k = None"
| "get_prop JNull k = None"
| "get_prop (JObj kvs) k = Some (case map_of kvs k of None \<Rightarrow> JUndefined | Some v \<Rightarrow> v)"
| "get_prop v k = Some JUndefined"

fun truthy :: "jsval \<Rightarrow> bool" where
  "truthy JUndefined = False"
| "truthy JNull = False"
| "truthy (JBool b) = b"
| "truthy (JNum r) = (r \<noteq> 0)"
| "truthy (JStr s) = (s \<noteq> [])"
| "truthy (JArr vs) = True"
| "truthy (JObj kvs) = True"

definition js_or :: "jsval \<Rightarrow> jsval \<Rightarrow> jsval" where
  "js_or a b = (if truthy a then a else b)"

text \<open>
  \<open>parsePackageJson\<close>: the \<open>try\<close> block reads the file, parses it and reads the two
  properties; whatever throws in it (reading a property of \<open>null\<close> throws a TypeError)
  is caught and gives \<open>null\<close>, here \<open>None\<close>.
\<close>

definition parsePackageJson :: "(string \<Rightarrow> jsval option) \<Rightarrow> node option \<Rightarrow> (jsval \<times> jsval) option" where
  "parsePackageJson jp pkgJson =
     (case readFile pkgJson of
        Inl e \<Rightarrow> None
      | Inr text \<Rightarrow>
          (case jp text of
             None \<Rightarrow> None
           | Some pkg \<Rightarrow>
               (case get_prop pkg ''name'' of
                  None \<Rightarrow> None
                | Some n \<Rightarrow>
                    (case get_prop pkg ''version'' of
                       None \<Rightarrow> None
                     | Some v \<Rightarrow> Some (js_or n (JStr ''unknown''), js_or v (JStr ''0.0.0''))))))"

definition isPnpmStructure :: "node option \<Rightarrow> bool" where
  "isPnpmStructure tree \<longleftrightarrow> existsSync (lookup_child tree ''.pnpm'')"

text \<open>\<open>walkDir\<close>, over the entries of the directory \<open>dir\<close>.\<close>

fun walkDir :: "string \<Rightarrow> string \<Rightarrow> (string \<times> node) list \<Rightarrow> FileEntry list" where
  "walkDir dir baseDir [] = []"
| "walkDir dir baseDir ((n, Dir es) # rest) =
     walkDir (path_join dir n) baseDir es @ walkDir dir baseDir rest"
| "walkDir dir baseDir ((n, File c perm t) # rest) =
     \<lparr>relativePath = path_relative baseDir (path_join dir n),
      absolutePath = path_join dir n,
      mode = S_IFREG + perm, fsize = length c, mtime = t\<rparr> # walkDir dir baseDir rest"
| "walkDir dir baseDir ((n, Special) # rest) = walkDir dir baseDir rest"

text \<open>A package directory as the two generators yield it, with the entries of the
  directory that \<open>dirPath\<close> names.\<close>

record PackageDir =
  dirPath :: string
  dirRelativePath :: string
  dirEntries :: "(string \<times> node) list"

text \<open>\<open>findPackageDirs\<close>: the body of the loop over a scope's entries, the body of the
  loop over the root's entries, and the generator.\<close>

fun scopedDir :: "string \<Rightarrow> string \<Rightarrow> string \<times> node \<Rightarrow> PackageDir list" where
  "scopedDir fullPath scope (sn, Dir ses) =
     [\<lparr>dirPath = path_join fullPath sn, dirRelativePath = path_join scope sn, dirEntries = ses\<rparr>]"
| "scopedDir fullPath scope (sn, other) = []"

fun packageDirsOf :: "string \<Rightarrow> string \<times> node \<Rightarrow> PackageDir list" where
  "packageDirsOf nodeModulesPath (n, Dir es) =
     (if n = ''.bin'' \<or> n = ''.cache'' \<or> n = ''.pnpm'' then []
      else if startsWith n ''@''
      then concat (map (scopedDir (path_join nodeModulesPath n) n) es)
      else [\<lparr>dirPath = path_join nodeModulesPath n, dirRelativePath = n, dirEntries = es\<rparr>])"
| "packageDirsOf nodeModulesPath (n, other) = []"

definition findPackageDirs :: "string \<Rightarrow> node option \<Rightarrow> error + PackageDir list" where
  "findPackageDirs nodeModulesPath tree =
     (case readdir tree of
        Inl e \<Rightarrow> Inl e
      | Inr entries \<Rightarrow> Inr (concat (map (packageDirsOf nodeModulesPath) entries)))"

text \<open>\<open>findPnpmPackageDirs\<close>: the loop over a scope's entries, over the entries of an
  inner \<open>node_modules\<close>, over the entries of \<open>.pnpm\<close>, and the generator. A
  \<open>readdir\<close> that throws ends the scan.\<close>

fun pnpmScopedDir :: "string \<Rightarrow> string \<Rightarrow> string \<Rightarrow> string \<times> node \<Rightarrow> PackageDir list" where
  "pnpmScopedDir pkgPath entryName innerName (sn, Dir ses) =
     [\<lparr>dirPath = path_join pkgPath sn,
       dirRelativePath = ''.pnpm/'' @ entryName @ ''/node_modules/'' @ innerName @ ''/'' @ sn,
       dirEntries = ses\<rparr>]"
| "pnpmScopedDir pkgPath entryName innerName (sn, other) = []"

fun pnpmInnerDirs :: "string \<Rightarrow> string \<Rightarrow> string \<times> node \<Rightarrow> PackageDir list" where
  "pnpmInnerDirs innerNodeModules entryName (n, Dir es) =
     (if n = ''.bin'' then []
      else if startsWith n ''@''
      then concat (map (pnpmScopedDir (path_join innerNodeModules n) entryName n) es)
      else [\<lparr>dirPath = path_join innerNodeModules n,
             dirRelativePath = ''.pnpm/'' @ entryName @ ''/node_modules/'' @ n,
             dirEntries = es\<rparr>])"
| "pnpmInnerDirs innerNodeModules entryName (n, other) = []"

fun pnpmEntryDirs :: "string \<Rightarrow> string \<times> node \<Rightarrow> error + PackageDir list" where
  "pnpmEntryDirs pnpmPath (n, Dir es) =
     (if n = ''node_modules'' \<or> startsWith n ''.'' then Inr []
      else if \<not> existsSync (map_of es ''node_modules'') then Inr []
      else (case readdir (map_of es ''node_modules'') of
              Inl e \<Rightarrow> Inl e
            | Inr innerEntries \<Rightarrow>
                Inr (concat (map (pnpmInnerDirs (path_join (path_join pnpmPath n) ''node_modules'') n)
                               innerEntries))))"
| "pnpmEntryDirs pnpmPath (n, other) = Inr []"

fun collect :: "('a \<Rightarrow> error + 'b list) \<Rightarrow> 'a list \<Rightarrow> error + 'b list" where
  "collect f [] = Inr []"
| "collect f (x # xs) =
     (case f x of
        Inl e \<Rightarrow> Inl e
      | Inr ys \<Rightarrow> (case collect f xs of Inl e \<Rightarrow> Inl e | Inr zs \<Rightarrow> Inr (ys @ zs)))"

definition findPnpmPackageDirs :: "string \<Rightarrow> node option \<Rightarrow> error + PackageDir list" where
  "findPnpmPackageDirs nodeModulesPath tree =
     (case readdir (lookup_child tree ''.pnpm'') of
        Inl e \<Rightarrow> Inl e
      | Inr entries \<Rightarrow> collect (pnpmEntryDirs (path_join nodeModulesPath ''.pnpm'')) entries)"

text \<open>\<open>scanPackages\<close>: the loop over the package directories, with the result so far.\<close>

fun scanPackages :: "(string \<Rightarrow> jsval option) \<Rightarrow> PackageDir list \<Rightarrow> ScanResult \<Rightarrow> ScanResult" where
  "scanPackages jp [] acc = acc"
| "scanPackages jp (d # ds) acc =
     (case parsePackageJson jp (map_of (dirEntries d) ''package.json'') of
        None \<Rightarrow> scanPackages jp ds acc
      | Some (n, v) \<Rightarrow>
          (let fs = walkDir (dirPath d) (dirPath d) (dirEntries d)
           in scanPackages jp ds
                (acc\<lparr>packages := packages acc @
                        [\<lparr>name = n, version = v, path = dirRelativePath d, files = fs\<rparr>],
                     totalFiles := totalFiles acc + length fs,
                     totalSize := totalSize acc + sum_list (map fsize fs)\<rparr>)))"

definition scanNodeModules :: "(string \<Rightarrow> jsval option) \<Rightarrow> string \<Rightarrow> node option \<Rightarrow> error + ScanResult" where
  "scanNodeModules jp nodeModulesPath tree =
     (case (if isPnpmStructure tree then findPnpmPackageDirs nodeModulesPath tree
            else findPackageDirs nodeModulesPath tree) of
        Inl e \<Rightarrow> Inl e
      | Inr packageDirs \<Rightarrow>
          Inr (scanPackages jp packageDirs \<lparr>totalFiles = 0, totalSize = 0, packages = []\<rparr>))"

section \<open>Packer\<close>

text \<open>
  \<open>pack.ts\<close>. \<open>hashBuffer\<close> and \<open>hashString\<close> (SHA-256 in hexadecimal) are the
  parameter \<open>H\<close>, \<open>compress\<close> (gzip at a level) is \<open>gz\<close>. The tree is the one the
  scanner saw: \<open>readFileSync\<close> resolves the absolute path in it.
\<close>

record PackOptions =
  source :: string
  outputDb :: string
  compressionLevel :: nat
  includeLockfile :: bool

text \<open>What \<open>pack\<close> reads besides the tree: the clock, \<open>process.version\<close>, and the
  contents of \<open>../package-lock.json\<close> when that file exists.\<close>

record PackEnv =
  nowISO :: string
  nodeVersion :: string
  lockfileContent :: "string option"

definition readFileSync :: "string \<Rightarrow> node option \<Rightarrow> string \<Rightarrow> error + bytes" where
  "readFileSync rootPath tree p = readFile (resolve_path rootPath tree p)"

text \<open>The body of the loop over \<open>pkg.files\<close>, on the store and the deduplicated
  count.\<close>

definition packFile ::
  "(bytes \<Rightarrow> string) \<Rightarrow> (nat \<Rightarrow> bytes \<Rightarrow> bytes) \<Rightarrow> nat \<Rightarrow> string \<Rightarrow> node option \<Rightarrow> nat
     \<Rightarrow> FileEntry \<Rightarrow> store \<times> nat \<Rightarrow> error + store \<times> nat" where
  "packFile H gz level rootPath tree pid file st =
     (case readFileSync rootPath tree (absolutePath file) of
        Inl e \<Rightarrow> Inl e
      | Inr bs \<Rightarrow>
          (let h = H bs;
               st1 = (if \<not> hasBlob h (fst st)
                      then (insertBlob \<lparr>hash = h, content = gz level bs,
                                         originalSize = length bs,
                                         compressedSize = length (gz level bs)\<rparr> (fst st),
                            snd st)
                      else (fst st, Suc (snd st)))
           in Inr (insertFile pid (relativePath file) h (mode file) (mtime file) (fst st1),
                   snd st1)))"

fun packFilesOf ::
  "(bytes \<Rightarrow> string) \<Rightarrow> (nat \<Rightarrow> bytes \<Rightarrow> bytes) \<Rightarrow> nat \<Rightarrow> string \<Rightarrow> node option \<Rightarrow> nat
     \<Rightarrow> FileEntry list \<Rightarrow> store \<times> nat \<Rightarrow> error + store \<times> nat" where
  "packFilesOf H gz level rootPath tree pid [] st = Inr st"
| "packFilesOf H gz level rootPath tree pid (file # rest) st =
     (case packFile H gz level rootPath tree pid file st of
        Inl e \<Rightarrow> Inl e
      | Inr st1 \<Rightarrow> packFilesOf H gz level rootPath tree pid rest st1)"

fun packPackages ::
  "(bytes \<Rightarrow> string) \<Rightarrow> (nat \<Rightarrow> bytes \<Rightarrow> bytes) \<Rightarrow> nat \<Rightarrow> string \<Rightarrow> node option
     \<Rightarrow> PackageWithFiles list \<Rightarrow> store \<times> nat \<Rightarrow> error + store \<times> nat" where
  "packPackages H gz level rootPath tree [] st = Inr st"
| "packPackages H gz level rootPath tree (pkg # rest) st =
     (let ins = insertPackage \<lparr>name = name pkg, version = version pkg, path = path pkg\<rparr> (fst st)
      in case packFilesOf H gz level rootPath tree (fst ins) (files pkg) (snd ins, snd st) of
           Inl e \<Rightarrow> Inl e
         | Inr st1 \<Rightarrow> packPackages H gz level rootPath tree rest st1)"

text \<open>\<open>packFiles\<close>: both loops, from a deduplicated count of 0.\<close>

definition packFiles ::
  "(bytes \<Rightarrow> string) \<Rightarrow> (nat \<Rightarrow> bytes \<Rightarrow> bytes) \<Rightarrow> nat \<Rightarrow> string \<Rightarrow> node option
     \<Rightarrow> PackageWithFiles list \<Rightarrow> store \<Rightarrow> error + store \<times> nat" where
  "packFiles H gz level rootPath tree pkgs s = packPackages H gz level rootPath tree pkgs (s, 0)"

text \<open>
  \<open>pack\<close>: \<open>source\<close> is the resolved path of the tree. A database file at the output
  path is removed before the store is opened, so the store starts from no file. An error
  inside the transaction rolls it back and leaves \<open>pack\<close>; the result is the database
  after \<open>close\<close> and the deduplicated count of the summary.
\<close>

definition pack ::
  "(bytes \<Rightarrow> string) \<Rightarrow> (nat \<Rightarrow> bytes \<Rightarrow> bytes) \<Rightarrow> (string \<Rightarrow> jsval option)
     \<Rightarrow> PackOptions \<Rightarrow> PackEnv \<Rightarrow> node option \<Rightarrow> error + store \<times> nat" where
  "pack H gz jp opts env tree =
     (if \<not> existsSync tree then Inl SourceNotFound
      else (case scanNodeModules jp (source opts) tree of
              Inl e \<Rightarrow> Inl e
            | Inr scanResult \<Rightarrow>
                (let s0 = newStore None;
                     s1 = setMetadata ''created_at'' (nowISO env) s0;
                     s2 = setMetadata ''node_version'' (nodeVersion env) s1;
                     s3 = setMetadata ''source_path'' (source opts) s2;
                     s4 = (if includeLockfile opts
                           then (case lockfileContent env of
                                   None \<Rightarrow> s3
                                 | Some text \<Rightarrow> setMetadata ''lockfile_hash'' (H text) s3)
                           else s3)
                 in packFiles H gz (compressionLevel opts) (source opts) tree
                      (packages scanResult) s4)))"

section \<open>Extractor\<close>









section \<open>Status\<close>

text \<open>\<open>status.ts\<close>: the database file (\<open>None\<close> when there is none), the resolved path
  of the tree and the tree.\<close>

record StatusResult =
  onlyInDb :: "string list"
  onlyInFs :: "string list"
  modified :: "string list"
  unchanged :: nat

definition emptyStatus :: StatusResult where
  "emptyStatus = \<lparr>onlyInDb = [], onlyInFs = [], modified = [], unchanged = 0\<rparr>"

text \<open>The body of the loop over the file rows.\<close>

definition statusFile ::
  "(bytes \<Rightarrow> string) \<Rightarrow> string \<Rightarrow> node option \<Rightarrow> StatusResult \<Rightarrow> FileWithPath \<Rightarrow> StatusResult" where
  "statusFile H nodeModulesPath tree res file =
     (let rel = path_join (packagePath file) (recRelativePath file);
          fullPath = path_join nodeModulesPath rel
      in if \<not> existsSync (resolve_path nodeModulesPath tree fullPath)
         then res\<lparr>onlyInDb := onlyInDb res @ [rel]\<rparr>
         else (case readFile (resolve_path nodeModulesPath tree fullPath) of
                 Inl e \<Rightarrow> res\<lparr>modified := modified res @ [rel]\<rparr>
               | Inr fsContent \<Rightarrow>
                   if H fsContent \<noteq> blobHash file
                   then res\<lparr>modified := modified res @ [rel]\<rparr>
                   else res\<lparr>unchanged := Suc (unchanged res)\<rparr>))"

definition status ::
  "(bytes \<Rightarrow> string) \<Rightarrow> store option \<Rightarrow> string \<Rightarrow> node option \<Rightarrow> error + StatusResult" where
  "status H db nodeModulesPath tree =
     (if db = None then Inl DatabaseNotFound
      else if \<not> existsSync tree then Inr emptyStatus
      else Inr (foldl (statusFile H nodeModulesPath tree) emptyStatus
                  (getAllFiles (newStore db))))"

section \<open>The claims in the words of the specification\<close>

text \<open>
  Status classification, as the specification words it: the joined path of a row, what
  is at that path below the tree, and the three classes of a row.
\<close>

definition row_path :: "FileWithPath \<Rightarrow> string" where
  "row_path file = path_join (packagePath file) (recRelativePath file)"

definition row_node :: "string \<Rightarrow> node option \<Rightarrow> FileWithPath \<Rightarrow> node option" where
  "row_node nodeModulesPath tree file =
     resolve_path nodeModulesPath tree (path_join nodeModulesPath (row_path file))"

definition row_missing :: "string \<Rightarrow> node option \<Rightarrow> FileWithPath \<Rightarrow> bool" where
  "row_missing nodeModulesPath tree file \<longleftrightarrow> row_node nodeModulesPath tree file = None"

definition row_modified :: "(bytes \<Rightarrow> string) \<Rightarrow> string \<Rightarrow> node option \<Rightarrow> FileWithPath \<Rightarrow> bool" where
  "row_modified H nodeModulesPath tree file \<longleftrightarrow>
     (case row_node nodeModulesPath tree file of
        None \<Rightarrow> False
      | Some nd \<Rightarrow>
          (case readFile (Some nd) of
             Inl e \<Rightarrow> True
           | Inr bs \<Rightarrow> H bs \<noteq> blobHash file))"

definition row_unchanged :: "(bytes \<Rightarrow> string) \<Rightarrow> string \<Rightarrow> node option \<Rightarrow> FileWithPath \<Rightarrow> bool" where
  "row_unchanged H nodeModulesPath tree file \<longleftrightarrow>
     (case row_node nodeModulesPath tree file of
        None \<Rightarrow> False
      | Some nd \<Rightarrow>
          (case readFile (Some nd) of
             Inl e \<Rightarrow> False
           | Inr bs \<Rightarrow> H bs = blobHash file))"

text \<open>How many of the three classes a row is in.\<close>

definition classes_of :: "(bytes \<Rightarrow> string) \<Rightarrow> string \<Rightarrow> node option \<Rightarrow> FileWithPath \<Rightarrow> nat" where
  "classes_of H nodeModulesPath tree file =
     (if row_missing nodeModulesPath tree file then 1 else 0)
   + (if row_modified H nodeModulesPath tree file then 1 else 0)
   + (if row_unchanged H nodeModulesPath tree file then 1 else 0)"






text \<open>Samples of the primitives the program takes from its platform, for evaluation: a
  digest that is the bytes themselves after a tag (so without collisions), and a codec that
  puts one byte in front.\<close>

definition sample_hash :: "bytes \<Rightarrow> string" where
  "sample_hash bs = ''sha:'' @ bs"

definition sample_gz :: "nat \<Rightarrow> bytes \<Rightarrow> bytes" where
  "sample_gz level bs = CHR ''z'' # bs"

fun sample_gunz :: "bytes \<Rightarrow> bytes option" where
  "sample_gunz [] = None"
| "sample_gunz (c # bs) = (if c = CHR ''z'' then Some bs else None)"


text \<open>A sample of \<open>JSON.parse\<close>, on the four texts the sample trees use.\<close>

definition sample_json :: "string \<Rightarrow> jsval option" where
  \<open>sample_json text =
     (if text = ''null'' then Some JNull
      else if text = ''{}'' then Some (JObj [])
      else if text = ''{"name":"a"}'' then Some (JObj [(''name'', JStr ''a'')])
      else if text = ''{"name":"foo","version":"1.0.0"}''
      then Some (JObj [(''name'', JStr ''foo''), (''version'', JStr ''1.0.0'')])
      else None)\<close>

text \<open>A flat tree with one package whose manifest is the JSON text \<open>null\<close>.\<close>

definition tree_null_manifest :: node where
  "tree_null_manifest =
     Dir [(''c'', Dir [(''package.json'', File ''null'' 420 1),
                       (''index.js'', File ''x'' 420 2)])]"

text \<open>A tree whose root holds a regular file named \<open>.pnpm\<close> beside a package.\<close>

definition tree_pnpm_file :: node where
  "tree_pnpm_file =
     Dir [(''.pnpm'', File ''x'' 420 1),
          (''a'', Dir [(''package.json'', File ''{}'' 420 1),
                       (''index.js'', File ''hello'' 420 2)])]"

text \<open>The result a scan starts from, and the package a directory with a readable
  manifest becomes.\<close>

definition emptyScan :: ScanResult where
  "emptyScan = \<lparr>totalFiles = 0, totalSize = 0, packages = []\<rparr>"

definition package_of :: "(string \<Rightarrow> jsval option) \<Rightarrow> PackageDir \<Rightarrow> PackageWithFiles option" where
  "package_of jp d =
     (case parsePackageJson jp (map_of (dirEntries d) ''package.json'') of
        None \<Rightarrow> None
      | Some nv \<Rightarrow>
          Some \<lparr>name = fst nv, version = snd nv, path = dirRelativePath d,
                files = walkDir (dirPath d) (dirPath d) (dirEntries d)\<rparr>)"

text \<open>The two shapes of a package path in the symlink-farm layout.\<close>

definition pnpm_chain :: "string \<Rightarrow> bool" where
  "pnpm_chain p \<longleftrightarrow>
     (\<exists>entry pkg. p = ''.pnpm/'' @ entry @ ''/node_modules/'' @ pkg \<and> \<not> startsWith pkg ''@'')
   \<or> (\<exists>entry pkg child. p = ''.pnpm/'' @ entry @ ''/node_modules/'' @ pkg @ ''/'' @ child
                       \<and> startsWith pkg ''@'')"

text \<open>
  The invariants of packing. A blob row is right when its content decompresses to bytes
  whose digest is its key; a store is right when its keys are distinct, its blob rows are
  right and every file row names a key. \<open>seen\<close> is 1 when the store has a blob under
  a digest, and \<open>same_bytes\<close> counts the entries whose file holds given bytes.
\<close>

definition blob_ok :: "(bytes \<Rightarrow> string) \<Rightarrow> (bytes \<Rightarrow> bytes option) \<Rightarrow> BlobInfo \<Rightarrow> bool" where
  "blob_ok H gunz b \<longleftrightarrow> (case gunz (content b) of None \<Rightarrow> False | Some bs \<Rightarrow> H bs = hash b)"

definition digest_ok :: "(bytes \<Rightarrow> string) \<Rightarrow> (bytes \<Rightarrow> bytes option) \<Rightarrow> store \<Rightarrow> bool" where
  "digest_ok H gunz s \<longleftrightarrow>
     distinct (map hash (t_blobs s))
   \<and> list_all (blob_ok H gunz) (t_blobs s)
   \<and> list_all (\<lambda>f. hasBlob (blobHash f) s) (t_files s)"

definition seen :: "string \<Rightarrow> store \<Rightarrow> nat" where
  "seen h s = (if hasBlob h s then 1 else 0)"

definition same_bytes :: "string \<Rightarrow> node option \<Rightarrow> bytes \<Rightarrow> FileEntry list \<Rightarrow> nat" where
  "same_bytes rootPath tree c fs =
     length (filter (\<lambda>f. readFileSync rootPath tree (absolutePath f) = Inr c) fs)"

definition stored_blob :: "(bytes \<Rightarrow> string) \<Rightarrow> (nat \<Rightarrow> bytes \<Rightarrow> bytes) \<Rightarrow> nat \<Rightarrow> bytes \<Rightarrow> BlobInfo" where
  "stored_blob H gz level bs =
     \<lparr>hash = H bs, content = gz level bs, originalSize = length bs,
      compressedSize = length (gz level bs)\<rparr>"

text \<open>
  All regular files below a directory, each with its path relative to the directory, its
  bytes, its permission bits and its modification time; and how many of them hold given
  bytes.
\<close>

fun tree_files :: "(string \<times> node) list \<Rightarrow> (string \<times> bytes \<times> nat \<times> nat) list" where
  "tree_files [] = []"
| "tree_files ((n, Dir es) # rest) =
     map (\<lambda>e. (n @ ''/'' @ fst e, snd e)) (tree_files es) @ tree_files rest"
| "tree_files ((n, File c perm t) # rest) = (n, c, perm, t) # tree_files rest"
| "tree_files ((n, Special) # rest) = tree_files rest"

definition files_with_bytes :: "bytes \<Rightarrow> (string \<times> node) list \<Rightarrow> nat" where
  "files_with_bytes c es = length (filter (\<lambda>e. fst (snd e) = c) (tree_files es))"

text \<open>
  A flat tree as npm leaves it: the hidden lockfile in the root, and two packages that
  both hold a file with the same bytes. With it, the options and the environment of a
  run of \<open>pack\<close>, and the database that run writes.
\<close>

definition dup_entries :: "(string \<times> node) list" where
  "dup_entries =
     [(''.package-lock.json'', File ''lock'' 420 9),
      (''a'', Dir [(''package.json'', File ''{}'' 420 1), (''x.js'', File ''hello'' 493 2)]),
      (''b'', Dir [(''package.json'', File ''{}'' 420 3), (''x.js'', File ''hello'' 420 4)])]"

definition tree_dup :: node where
  "tree_dup = Dir dup_entries"

definition sample_opts :: PackOptions where
  "sample_opts =
     \<lparr>source = ''/p/node_modules'', outputDb = ''/p/node_modules.db'',
      compressionLevel = 6, includeLockfile = False\<rparr>"

definition sample_env :: PackEnv where
  "sample_env =
     \<lparr>nowISO = ''2024-01-01T00:00:00.000Z'', nodeVersion = ''v20.0.0'',
      lockfileContent = None\<rparr>"

definition db_dup :: store where
  "db_dup =
     \<lparr>t_metadata =
        [(''schema_version'', ''1''),
         (''created_at'', ''2024-01-01T00:00:00.000Z''),
         (''node_version'', ''v20.0.0''),
         (''source_path'', ''/p/node_modules'')],
      t_packages =
        [\<lparr>name = JStr ''unknown'', version = JStr ''0.0.0'', path = ''a'', pkgId = 1\<rparr>,
         \<lparr>name = JStr ''unknown'', version = JStr ''0.0.0'', path = ''b'', pkgId = 2\<rparr>],
      t_blobs =
        [\<lparr>hash = ''sha:{}'', content = ''z{}'', originalSize = 2, compressedSize = 3\<rparr>,
         \<lparr>hash = ''sha:hello'', content = ''zhello'', originalSize = 5,
           compressedSize = 6\<rparr>],
      t_files =
        [\<lparr>recId = 1, packageId = 1, recRelativePath = ''package.json'',
           blobHash = ''sha:{}'', recMode = 33188, recMtime = 1\<rparr>,
         \<lparr>recId = 2, packageId = 1, recRelativePath = ''x.js'',
           blobHash = ''sha:hello'', recMode = 33261, recMtime = 2\<rparr>,
         \<lparr>recId = 3, packageId = 2, recRelativePath = ''package.json'',
           blobHash = ''sha:{}'', recMode = 33188, recMtime = 3\<rparr>,
         \<lparr>recId = 4, packageId = 2, recRelativePath = ''x.js'',
           blobHash = ''sha:hello'', recMode = 33188, recMtime = 4\<rparr>]\<rparr>"

definition dup_scan :: ScanResult where
  "dup_scan =
     \<lparr>totalFiles = 4, totalSize = 14,
      packages =
        [\<lparr>name = JStr ''unknown'', version = JStr ''0.0.0'', path = ''a'',
           files =
             [\<lparr>relativePath = ''package.json'',
                absolutePath = ''/p/node_modules/a/package.json'',
                mode = 33188, fsize = 2, mtime = 1\<rparr>,
              \<lparr>relativePath = ''x.js'', absolutePath = ''/p/node_modules/a/x.js'',
                mode = 33261, fsize = 5, mtime = 2\<rparr>]\<rparr>,
         \<lparr>name = JStr ''unknown'', version = JStr ''0.0.0'', path = ''b'',
           files =
             [\<lparr>relativePath = ''package.json'',
                absolutePath = ''/p/node_modules/b/package.json'',
                mode = 33188, fsize = 2, mtime = 3\<rparr>,
              \<lparr>relativePath = ''x.js'', absolutePath = ''/p/node_modules/b/x.js'',
                mode = 33188, fsize = 5, mtime = 4\<rparr>]\<rparr>]\<rparr>"

section \<open>Properties of the store\<close>

lemma find_None_filter: "find P xs = None \<longleftrightarrow> filter P xs = []"
  by (induction xs) auto

lemma distinct_key_filter:
  "distinct (map f xs) \<Longrightarrow> length (filter (\<lambda>x. f x = k) xs) \<le> 1"
proof (induction xs)
  case Nil
  then show ?case by simp
next
  case (Cons x xs)
  have "\<forall>y\<in>set xs. f y \<noteq> f x"
    using Cons.prems by (auto simp: image_iff)
  then have "f x = k \<Longrightarrow> filter (\<lambda>x. f x = k) xs = []"
    by (auto simp: filter_empty_conv)
  then show ?case using Cons by auto
qed

lemma insertBlob_present:
  "find (\<lambda>b. hash b = hash blob) (t_blobs s) \<noteq> None \<Longrightarrow> insertBlob blob s = s"
  by (simp add: insertBlob_def)

lemma insertBlob_has: "hasBlob (hash blob) (insertBlob blob s)"
  by (auto simp: insertBlob_def hasBlob_def find_None_filter)

lemma insertBlob_distinct:
  "distinct (map hash (t_blobs s)) \<Longrightarrow> distinct (map hash (t_blobs (insertBlob blob s)))"
  by (auto simp: insertBlob_def find_None_iff)

text \<open>
  C4. Idempotent blob insert. In a store whose blobs table has each key once (the primary
  key), after \<open>insertBlob\<close> with a digest \<open>d\<close> a second \<open>insertBlob\<close> with the same
  digest and any other payload changes nothing in the store; the table then holds exactly
  one row under \<open>d\<close>, and when \<open>d\<close> was not a key before the first call, that row is
  the one the first call stored.
\<close>

theorem insertBlob_idempotent:
  assumes "distinct (map hash (t_blobs s))" and "hash b1 = d" and "hash b2 = d"
  shows "insertBlob b2 (insertBlob b1 s) = insertBlob b1 s
       \<and> length (blob_rows d (insertBlob b2 (insertBlob b1 s))) = 1
       \<and> (if hasBlob d s then blob_rows d (insertBlob b2 (insertBlob b1 s)) = blob_rows d s
          else blob_rows d (insertBlob b2 (insertBlob b1 s)) = [b1])"
proof -
  let ?s1 = "insertBlob b1 s"
  have has: "find (\<lambda>b. hash b = hash b2) (t_blobs ?s1) \<noteq> None"
    using insertBlob_has [of b1 s] assms by (simp add: hasBlob_def)
  have noop: "insertBlob b2 ?s1 = ?s1"
    by (rule insertBlob_present [OF has])
  have dist: "distinct (map hash (t_blobs ?s1))"
    by (rule insertBlob_distinct [OF assms(1)])
  have nonempty: "blob_rows d ?s1 \<noteq> []"
    using has assms by (simp add: blob_rows_def find_None_filter)
  have "length (blob_rows d ?s1) \<le> 1"
    unfolding blob_rows_def by (rule distinct_key_filter [OF dist])
  then have one: "length (blob_rows d ?s1) = 1"
    using nonempty by (cases "blob_rows d ?s1") auto
  have rows: "if hasBlob d s then blob_rows d ?s1 = blob_rows d s else blob_rows d ?s1 = [b1]"
    using assms by (auto simp: insertBlob_def hasBlob_def blob_rows_def find_None_filter)
  show ?thesis
    using noop one rows by simp
qed

theorem insertBlob_idempotent_witness:
  "distinct (map hash (t_blobs empty_db)) \<and> hash blob_a = ''d1'' \<and> hash blob_b = ''d1''
   \<and> insertBlob blob_b (insertBlob blob_a empty_db) = insertBlob blob_a empty_db
   \<and> t_blobs (insertBlob blob_b (insertBlob blob_a empty_db)) = [blob_a]"
  using insertBlob_idempotent [of empty_db blob_a "''d1''" blob_b]
  by (simp add: empty_db_def blob_a_def blob_b_def insertBlob_def)






section \<open>Properties of status\<close>

lemma getAllFiles_setMetadata: "getAllFiles (setMetadata k v s) = getAllFiles s"
  by (simp add: getAllFiles_def setMetadata_def)

lemma getAllFiles_newStore: "getAllFiles (newStore (Some db)) = getAllFiles db"
  by (simp add: newStore_def initSchema_def getAllFiles_setMetadata)

lemma statusFile_cases:
  "statusFile H nm tree res file =
     (if row_missing nm tree file then res\<lparr>onlyInDb := onlyInDb res @ [row_path file]\<rparr>
      else if row_modified H nm tree file then res\<lparr>modified := modified res @ [row_path file]\<rparr>
      else res\<lparr>unchanged := Suc (unchanged res)\<rparr>)"
  by (auto simp: statusFile_def Let_def row_missing_def row_modified_def row_node_def
        row_path_def existsSync_def split: sum.splits option.splits)

lemma row_classes:
  "row_unchanged H nm tree file \<longleftrightarrow> \<not> row_missing nm tree file \<and> \<not> row_modified H nm tree file"
  by (auto simp: row_unchanged_def row_missing_def row_modified_def split: option.splits sum.splits)

lemma status_loop:
  "foldl (statusFile H nm tree) res rows =
     \<lparr>onlyInDb = onlyInDb res @ map row_path (filter (row_missing nm tree) rows),
      onlyInFs = onlyInFs res,
      modified = modified res @ map row_path (filter (row_modified H nm tree) rows),
      unchanged = unchanged res + length (filter (row_unchanged H nm tree) rows)\<rparr>"
proof (induction rows arbitrary: res)
  case Nil
  then show ?case by simp
next
  case (Cons row rows)
  have c: "row_unchanged H nm tree row \<longleftrightarrow>
             \<not> row_missing nm tree row \<and> \<not> row_modified H nm tree row"
    by (rule row_classes)
  have m: "row_missing nm tree row \<Longrightarrow> \<not> row_modified H nm tree row"
    by (simp add: row_missing_def row_modified_def)
  show ?case
    unfolding foldl_Cons Cons.IH using c m
    by (auto simp: statusFile_cases)
qed

lemma filter_partition3:
  assumes "\<And>x. R x \<longleftrightarrow> \<not> P x \<and> \<not> Q x" and "\<And>x. P x \<Longrightarrow> \<not> Q x"
  shows "length (filter P xs) + length (filter Q xs) + length (filter R xs) = length xs"
  using assms by (induction xs) auto

lemma missing_not_modified: "row_missing nm tree file \<Longrightarrow> \<not> row_modified H nm tree file"
  by (simp add: row_missing_def row_modified_def)

text \<open>
  C6. Status classification. With a database and a tree, \<open>status\<close> returns: in
  \<open>onlyInDb\<close> the joined paths of the rows of \<open>getAllFiles\<close> with nothing at the path
  below the tree; in \<open>modified\<close> those of the rows with something at the path that
  cannot be read or whose bytes hash to another digest than the row's \<open>blobHash\<close>; and
  as \<open>unchanged\<close> the number of rows whose bytes hash to the row's digest. The paths
  are in the order of the rows.
\<close>

theorem status_classification:
  "status H (Some db) nm (Some t) =
     Inr \<lparr>onlyInDb = map row_path (filter (row_missing nm (Some t)) (getAllFiles db)),
          onlyInFs = [],
          modified = map row_path (filter (row_modified H nm (Some t)) (getAllFiles db)),
          unchanged = length (filter (row_unchanged H nm (Some t)) (getAllFiles db))\<rparr>"
  by (simp add: status_def existsSync_def status_loop getAllFiles_newStore emptyStatus_def)

text \<open>
  C10. With a database and a tree, \<open>status\<close> returns a result in which the lengths of
  \<open>onlyInDb\<close> and \<open>modified\<close> and the \<open>unchanged\<close> count add up to the number of
  rows of \<open>getAllFiles\<close>; every row is in exactly one of the three classes; and whenever
  \<open>status\<close> returns a result, with or without a tree, its \<open>onlyInFs\<close> is empty.
\<close>

theorem status_buckets:
  "(\<exists>r. status H (Some db) nm (Some t) = Inr r
        \<and> length (onlyInDb r) + length (modified r) + unchanged r = length (getAllFiles db)
        \<and> onlyInFs r = [])
   \<and> list_all (\<lambda>file. classes_of H nm (Some t) file = 1) (getAllFiles db)
   \<and> (case status H dbo nm tree of Inl e \<Rightarrow> True | Inr r \<Rightarrow> onlyInFs r = [])"
proof (intro conjI)
  have "length (filter (row_missing nm (Some t)) (getAllFiles db))
      + length (filter (row_modified H nm (Some t)) (getAllFiles db))
      + length (filter (row_unchanged H nm (Some t)) (getAllFiles db)) = length (getAllFiles db)"
    by (rule filter_partition3) (auto simp: row_classes missing_not_modified)
  then show "\<exists>r. status H (Some db) nm (Some t) = Inr r
        \<and> length (onlyInDb r) + length (modified r) + unchanged r = length (getAllFiles db)
        \<and> onlyInFs r = []"
    by (simp add: status_def existsSync_def status_loop getAllFiles_newStore emptyStatus_def)
  show "list_all (\<lambda>file. classes_of H nm (Some t) file = 1) (getAllFiles db)"
    by (auto simp: list_all_iff classes_of_def row_classes missing_not_modified)
  show "case status H dbo nm tree of Inl e \<Rightarrow> True | Inr r \<Rightarrow> onlyInFs r = []"
    by (simp add: status_def status_loop emptyStatus_def)
qed

section \<open>Properties of the extractor\<close>








section \<open>Properties of the scanner\<close>

lemma scanPackages_packages:
  "packages (scanPackages jp dirs acc) = packages acc @ List.map_filter (package_of jp) dirs"
proof (induction dirs arbitrary: acc)
  case Nil
  then show ?case by (simp add: List.map_filter_simps)
next
  case (Cons d dirs)
  show ?case
    by (cases "parsePackageJson jp (map_of (dirEntries d) ''package.json'')")
       (auto simp: Cons.IH package_of_def List.map_filter_simps Let_def)
qed

lemma scan_flat:
  "lookup_child tree ''.pnpm'' = None \<Longrightarrow>
   scanNodeModules jp nm tree =
     (case findPackageDirs nm tree of
        Inl e \<Rightarrow> Inl e
      | Inr dirs \<Rightarrow> Inr (scanPackages jp dirs emptyScan))"
  unfolding emptyScan_def
  by (simp add: scanNodeModules_def isPnpmStructure_def existsSync_def)

lemma scan_pnpm:
  "lookup_child tree ''.pnpm'' = Some (Dir ps) \<Longrightarrow>
   scanNodeModules jp nm tree =
     (case collect (pnpmEntryDirs (path_join nm ''.pnpm'')) ps of
        Inl e \<Rightarrow> Inl e
      | Inr dirs \<Rightarrow> Inr (scanPackages jp dirs emptyScan))"
  unfolding emptyScan_def
  by (simp add: scanNodeModules_def isPnpmStructure_def existsSync_def findPnpmPackageDirs_def)

text \<open>A manifest that cannot be read or parsed gives no package and no error.\<close>

lemma parsePackageJson_unreadable:
  "readFile pkgJson = Inl e \<Longrightarrow> parsePackageJson jp pkgJson = None"
  by (simp add: parsePackageJson_def)

lemma parsePackageJson_unparsable:
  "readFile pkgJson = Inr text \<Longrightarrow> jp text = None \<Longrightarrow> parsePackageJson jp pkgJson = None"
  by (simp add: parsePackageJson_def)

lemma scanPackages_skip:
  "parsePackageJson jp (map_of (dirEntries d) ''package.json'') = None \<Longrightarrow>
   scanPackages jp (d # ds) acc = scanPackages jp ds acc"
  by simp

text \<open>A manifest that parses to an object without the two properties gives the
  defaults; one that parses to \<open>null\<close> gives no package.\<close>

lemma parsePackageJson_defaults:
  "readFile pkgJson = Inr text \<Longrightarrow> jp text = Some (JObj kvs) \<Longrightarrow>
   map_of kvs ''name'' = None \<Longrightarrow> map_of kvs ''version'' = None \<Longrightarrow>
   parsePackageJson jp pkgJson = Some (JStr ''unknown'', JStr ''0.0.0'')"
  by (simp add: parsePackageJson_def js_or_def)

lemma parsePackageJson_null:
  "readFile pkgJson = Inr text \<Longrightarrow> jp text = Some JNull \<Longrightarrow> parsePackageJson jp pkgJson = None"
  by (simp add: parsePackageJson_def)

text \<open>
  C7. Scanner manifest tolerance. The first half holds (\<open>parsePackageJson_unreadable\<close>,
  \<open>parsePackageJson_unparsable\<close>, \<open>scanPackages_skip\<close>), and so does the second for a
  manifest that is a JSON object (\<open>parsePackageJson_defaults\<close>). The JSON text
  \<open>null\<close> parses and has neither a name nor a version, and the directory is skipped:
  the scan of a tree with one such package returns no package.
\<close>

theorem scan_null_manifest:
  "sample_json ''null'' = Some JNull
   \<and> scanNodeModules sample_json ''/p/node_modules'' (Some tree_null_manifest) =
       Inr \<lparr>totalFiles = 0, totalSize = 0, packages = []\<rparr>"
  by (simp add: sample_json_def scanNodeModules_def isPnpmStructure_def existsSync_def
        tree_null_manifest_def findPackageDirs_def startsWith_def path_join_def
        parsePackageJson_def)

text \<open>The paths of the symlink-farm layout.\<close>

lemma pnpmScopedDir_chain:
  "d \<in> set (pnpmScopedDir pkgPath entry pkg (sn, nd)) \<Longrightarrow> startsWith pkg ''@'' \<Longrightarrow>
   pnpm_chain (dirRelativePath d)"
proof (cases nd)
  case (Dir ses)
  assume "d \<in> set (pnpmScopedDir pkgPath entry pkg (sn, nd))" and at: "startsWith pkg ''@''"
  then have "dirRelativePath d = ''.pnpm/'' @ entry @ ''/node_modules/'' @ pkg @ ''/'' @ sn"
    using Dir by simp
  then show ?thesis
    using at unfolding pnpm_chain_def by blast
qed auto

lemma pnpmInnerDirs_chain:
  "d \<in> set (pnpmInnerDirs inner entry (n, nd)) \<Longrightarrow> pnpm_chain (dirRelativePath d)"
proof (cases nd)
  case (Dir es)
  assume m: "d \<in> set (pnpmInnerDirs inner entry (n, nd))"
  show ?thesis
  proof (cases "startsWith n ''@''")
    case True
    then obtain e where "d \<in> set (pnpmScopedDir (path_join inner n) entry n e)"
      using m Dir by (auto split: if_splits)
    then show ?thesis
      using True pnpmScopedDir_chain by (cases e) blast
  next
    case False
    then have "dirRelativePath d = ''.pnpm/'' @ entry @ ''/node_modules/'' @ n"
      using m Dir by (auto split: if_splits)
    then show ?thesis
      using False unfolding pnpm_chain_def by blast
  qed
qed auto

lemma pnpmEntryDirs_chain:
  "pnpmEntryDirs pnpmPath (n, nd) = Inr ds \<Longrightarrow> d \<in> set ds \<Longrightarrow>
   pnpm_chain (dirRelativePath d)"
  by (cases nd) (auto split: if_splits sum.splits dest: pnpmInnerDirs_chain)

lemma collect_chain:
  "collect (pnpmEntryDirs pnpmPath) es = Inr ds \<Longrightarrow> d \<in> set ds \<Longrightarrow>
   pnpm_chain (dirRelativePath d)"
proof (induction es arbitrary: ds)
  case Nil
  then show ?case by simp
next
  case (Cons e es)
  then show ?case
    by (cases e) (auto split: sum.splits dest: pnpmEntryDirs_chain)
qed

lemma package_of_path: "package_of jp d = Some p \<Longrightarrow> path p = dirRelativePath d"
  by (auto simp: package_of_def split: option.splits)

lemma scan_pnpm_paths:
  assumes "lookup_child tree ''.pnpm'' = Some (Dir ps)"
    and "scanNodeModules jp nm tree = Inr r" and "p \<in> set (packages r)"
  shows "pnpm_chain (path p)"
proof -
  obtain dirs where c: "collect (pnpmEntryDirs (path_join nm ''.pnpm'')) ps = Inr dirs"
    and r: "r = scanPackages jp dirs emptyScan"
    using assms(1,2) by (auto simp: scan_pnpm split: sum.splits)
  then obtain d where "d \<in> set dirs" "package_of jp d = Some p"
    using assms(3) by (auto simp: scanPackages_packages emptyScan_def List.map_filter_def)
  then show ?thesis
    using collect_chain [OF c] package_of_path by metis
qed

text \<open>
  C8. Layout detection and symlink-farm paths. With a directory \<open>.pnpm\<close> in the root
  the scan is the one of the entries of \<open>.pnpm\<close> alone (\<open>scan_pnpm\<close>), every package
  path has one of the two shapes (\<open>scan_pnpm_paths\<close>), and with no entry of that name
  the scan is the flat one (\<open>scan_flat\<close>). The layout is chosen by \<open>existsSync\<close>, which
  does not ask for a directory: with a regular file named \<open>.pnpm\<close> in the root, the scan
  is not the flat one but ends with the error of \<open>readdir\<close> on that file.
\<close>

theorem scan_pnpm_regular_file:
  "scanNodeModules jp nm (Some tree_pnpm_file) = Inl ENOTDIR
   \<and> findPackageDirs nm (Some tree_pnpm_file) =
       Inr [\<lparr>dirPath = path_join nm ''a'', dirRelativePath = ''a'',
             dirEntries = [(''package.json'', File ''{}'' 420 1),
                           (''index.js'', File ''hello'' 420 2)]\<rparr>]"
  by (simp add: scanNodeModules_def isPnpmStructure_def existsSync_def tree_pnpm_file_def
        findPnpmPackageDirs_def findPackageDirs_def startsWith_def)

section \<open>Properties of the packer\<close>

lemma hasBlob_iff: "hasBlob h s \<longleftrightarrow> h \<in> hash ` set (t_blobs s)"
  by (auto simp: hasBlob_def find_None_iff)

lemma blobs_insertBlob:
  "t_blobs (insertBlob b s) = (if hasBlob (hash b) s then t_blobs s else t_blobs s @ [b])"
  by (simp add: insertBlob_def hasBlob_def)

lemma files_insertBlob: "t_files (insertBlob b s) = t_files s"
  by (simp add: insertBlob_def)

lemma packages_insertBlob: "t_packages (insertBlob b s) = t_packages s"
  by (simp add: insertBlob_def)

lemma blobs_insertFile: "t_blobs (insertFile pid rel h m t s) = t_blobs s"
  by (simp add: insertFile_def)

lemma packages_insertFile: "t_packages (insertFile pid rel h m t s) = t_packages s"
  by (simp add: insertFile_def)

lemma blobs_insertPackage: "t_blobs (snd (insertPackage pkg s)) = t_blobs s"
  by (simp add: insertPackage_def Let_def split: option.splits)

lemma files_insertPackage: "t_files (snd (insertPackage pkg s)) = t_files s"
  by (simp add: insertPackage_def Let_def split: option.splits)

lemma blobs_setMetadata: "t_blobs (setMetadata k v s) = t_blobs s"
  by (simp add: setMetadata_def)

lemma files_setMetadata: "t_files (setMetadata k v s) = t_files s"
  by (simp add: setMetadata_def)

lemma packages_setMetadata: "t_packages (setMetadata k v s) = t_packages s"
  by (simp add: setMetadata_def)

lemma hasBlob_blobs: "t_blobs s' = t_blobs s \<Longrightarrow> hasBlob h s' = hasBlob h s"
  by (simp add: hasBlob_def)

lemma blobHash_insertFile:
  "f \<in> set (t_files (insertFile pid rel h m t s)) \<Longrightarrow>
   blobHash f = h \<or> blobHash f \<in> blobHash ` set (t_files s)"
  by (auto simp: insertFile_def split: if_splits)

lemma packFile_Inr:
  assumes "packFile H gz level rootPath tree pid file st = Inr st'"
  shows "\<exists>bs. readFileSync rootPath tree (absolutePath file) = Inr bs
    \<and> fst st' = insertFile pid (relativePath file) (H bs) (mode file) (mtime file)
                     (insertBlob (stored_blob H gz level bs) (fst st))
    \<and> snd st' = (if hasBlob (H bs) (fst st) then Suc (snd st) else snd st)"
proof -
  obtain bs where r: "readFileSync rootPath tree (absolutePath file) = Inr bs"
    using assms by (auto simp: packFile_def split: sum.splits)
  have i: "hasBlob (H bs) (fst st) \<Longrightarrow> insertBlob (stored_blob H gz level bs) (fst st) = fst st"
    by (simp add: insertBlob_def hasBlob_def stored_blob_def)
  show ?thesis
    using assms r i
    by (intro exI [of _ bs]) (auto simp: packFile_def Let_def stored_blob_def split: if_splits)
qed

lemma packFile_digest_ok:
  assumes "packFile H gz level rootPath tree pid file st = Inr st'"
    and "\<And>bs. gunz (gz level bs) = Some bs" and "digest_ok H gunz (fst st)"
  shows "digest_ok H gunz (fst st')"
proof -
  obtain bs where s': "fst st' = insertFile pid (relativePath file) (H bs) (mode file) (mtime file)
                     (insertBlob (stored_blob H gz level bs) (fst st))"
    using packFile_Inr [OF assms(1)] by blast
  let ?s1 = "insertBlob (stored_blob H gz level bs) (fst st)"
  have h [simp]: "hash (stored_blob H gz level bs) = H bs"
    by (simp add: stored_blob_def)
  have ok: "blob_ok H gunz (stored_blob H gz level bs)"
    by (simp add: blob_ok_def stored_blob_def assms(2))
  have d1: "distinct (map hash (t_blobs ?s1))"
    using assms(3) by (auto simp: digest_ok_def blobs_insertBlob hasBlob_iff)
  have b1: "list_all (blob_ok H gunz) (t_blobs ?s1)"
    using assms(3) ok by (auto simp: digest_ok_def blobs_insertBlob)
  have has: "hasBlob (H bs) ?s1"
    using insertBlob_has [of "stored_blob H gz level bs" "fst st"] by simp
  have mono: "\<And>h. hasBlob h (fst st) \<Longrightarrow> hasBlob h ?s1"
    by (auto simp: hasBlob_iff blobs_insertBlob)
  have f1: "list_all (\<lambda>f. hasBlob (blobHash f) (fst st')) (t_files (fst st'))"
  proof -
    have "\<And>f. f \<in> set (t_files (fst st')) \<Longrightarrow> hasBlob (blobHash f) ?s1"
    proof -
      fix f assume "f \<in> set (t_files (fst st'))"
      then have "blobHash f = H bs \<or> blobHash f \<in> blobHash ` set (t_files ?s1)"
        unfolding s' by (rule blobHash_insertFile)
      then show "hasBlob (blobHash f) ?s1"
        using has mono assms(3) by (auto simp: digest_ok_def files_insertBlob list_all_iff)
    qed
    then show ?thesis
      unfolding s' by (simp add: list_all_iff hasBlob_iff blobs_insertFile)
  qed
  show ?thesis
    unfolding digest_ok_def using d1 b1 f1 unfolding s' by (simp add: blobs_insertFile)
qed

lemma packFilesOf_digest_ok:
  assumes "packFilesOf H gz level rootPath tree pid fs st = Inr st'"
    and "\<And>bs. gunz (gz level bs) = Some bs" and "digest_ok H gunz (fst st)"
  shows "digest_ok H gunz (fst st')"
  using assms
proof (induction fs arbitrary: st)
  case Nil
  then show ?case by simp
next
  case (Cons f fs)
  obtain st1 where 1: "packFile H gz level rootPath tree pid f st = Inr st1"
    and 2: "packFilesOf H gz level rootPath tree pid fs st1 = Inr st'"
    using Cons.prems(1) by (auto split: sum.splits)
  have "digest_ok H gunz (fst st1)"
    by (rule packFile_digest_ok [OF 1 Cons.prems(2) Cons.prems(3)])
  then show ?case
    by (rule Cons.IH [OF 2 Cons.prems(2)])
qed

lemma digest_ok_insertPackage:
  "digest_ok H gunz s \<Longrightarrow> digest_ok H gunz (snd (insertPackage pkg s))"
  by (simp add: digest_ok_def blobs_insertPackage files_insertPackage hasBlob_iff)

lemma packPackages_digest_ok:
  assumes "packPackages H gz level rootPath tree pkgs st = Inr st'"
    and "\<And>bs. gunz (gz level bs) = Some bs" and "digest_ok H gunz (fst st)"
  shows "digest_ok H gunz (fst st')"
  using assms
proof (induction pkgs arbitrary: st)
  case Nil
  then show ?case by simp
next
  case (Cons pkg pkgs)
  let ?ins = "insertPackage \<lparr>name = name pkg, version = version pkg, path = path pkg\<rparr> (fst st)"
  obtain st1 where 1: "packFilesOf H gz level rootPath tree (fst ?ins) (files pkg) (snd ?ins, snd st) = Inr st1"
    and 2: "packPackages H gz level rootPath tree pkgs st1 = Inr st'"
    using Cons.prems(1) by (auto simp: Let_def split: sum.splits)
  have "digest_ok H gunz (fst (snd ?ins, snd st))"
    using Cons.prems(3) by (simp add: digest_ok_insertPackage)
  then have "digest_ok H gunz (fst st1)"
    using packFilesOf_digest_ok [OF 1 Cons.prems(2)] by simp
  then show ?case
    using Cons.IH [OF 2 Cons.prems(2)] by simp
qed

lemma digest_ok_setMetadata: "digest_ok H gunz s \<Longrightarrow> digest_ok H gunz (setMetadata k v s)"
  by (simp add: digest_ok_def blobs_setMetadata files_setMetadata hasBlob_iff)

lemma digest_ok_newStore: "digest_ok H gunz (newStore None)"
  by (simp add: newStore_def initSchema_def digest_ok_def blobs_setMetadata files_setMetadata
        empty_db_def)

lemma pack_Inr:
  assumes "pack H gz jp opts env tree = Inr (s, d)"
  shows "\<exists>r s0. scanNodeModules jp (source opts) tree = Inr r
    \<and> packFiles H gz (compressionLevel opts) (source opts) tree (packages r) s0 = Inr (s, d)
    \<and> t_blobs s0 = [] \<and> t_files s0 = [] \<and> t_packages s0 = []"
proof -
  obtain r where r: "scanNodeModules jp (source opts) tree = Inr r"
    using assms by (auto simp: pack_def split: if_splits sum.splits)
  let ?s3 = "setMetadata ''source_path'' (source opts)
              (setMetadata ''node_version'' (nodeVersion env)
                (setMetadata ''created_at'' (nowISO env) (newStore None)))"
  let ?s4 = "if includeLockfile opts
             then (case lockfileContent env of None \<Rightarrow> ?s3
                   | Some text \<Rightarrow> setMetadata ''lockfile_hash'' (H text) ?s3)
             else ?s3"
  have p: "packFiles H gz (compressionLevel opts) (source opts) tree (packages r) ?s4 = Inr (s, d)"
    using assms r by (auto simp: pack_def Let_def split: if_splits)
  have e: "t_blobs ?s4 = [] \<and> t_files ?s4 = [] \<and> t_packages ?s4 = []"
    by (auto simp: blobs_setMetadata files_setMetadata packages_setMetadata newStore_def
          initSchema_def empty_db_def split: option.splits)
  show ?thesis
    using r p e by blast
qed

text \<open>
  C2. Digest correctness. When decompressing what \<open>compress\<close> gives at the level of
  the run gives the bytes back, in the database a run of \<open>pack\<close> leaves every file row
  has a blob row under the file row's \<open>blobHash\<close>, the content of that blob row
  decompresses to bytes whose digest is that \<open>blobHash\<close>, and no two blob rows have the
  same key.
\<close>

theorem pack_digest_correct:
  assumes "\<And>bs. gunz (gz (compressionLevel opts) bs) = Some bs"
    and "pack H gz jp opts env tree = Inr (s, d)"
  shows "list_all (\<lambda>f. \<exists>b \<in> set (t_blobs s). hash b = blobHash f
             \<and> (\<exists>bs. gunz (content b) = Some bs \<and> H bs = blobHash f)) (t_files s)
       \<and> distinct (map hash (t_blobs s))"
proof -
  obtain r :: ScanResult and s0
    where p: "packFiles H gz (compressionLevel opts) (source opts) tree (packages r) s0 = Inr (s, d)"
    and e: "t_blobs s0 = []" "t_files s0 = []"
    using pack_Inr [OF assms(2)] by blast
  have "digest_ok H gunz s0"
    using e by (simp add: digest_ok_def)
  then have ok: "digest_ok H gunz s"
    using packPackages_digest_ok [OF p [unfolded packFiles_def] assms(1)] by simp
  have "\<And>f. f \<in> set (t_files s) \<Longrightarrow> \<exists>b \<in> set (t_blobs s). hash b = blobHash f
             \<and> (\<exists>bs. gunz (content b) = Some bs \<and> H bs = blobHash f)"
  proof -
    fix f assume "f \<in> set (t_files s)"
    then have "hasBlob (blobHash f) s"
      using ok by (simp add: digest_ok_def list_all_iff)
    then obtain b where b: "b \<in> set (t_blobs s)" "hash b = blobHash f"
      by (auto simp: hasBlob_iff)
    then have "blob_ok H gunz b"
      using ok by (simp add: digest_ok_def list_all_iff)
    then show "\<exists>b \<in> set (t_blobs s). hash b = blobHash f
             \<and> (\<exists>bs. gunz (content b) = Some bs \<and> H bs = blobHash f)"
      using b by (auto simp: blob_ok_def split: option.splits)
  qed
  then show ?thesis
    using ok by (simp add: list_all_iff digest_ok_def)
qed


lemma seen_mono_insertBlob: "seen h s \<le> seen h (insertBlob b s)"
  by (auto simp: seen_def hasBlob_iff blobs_insertBlob)

lemma packFile_seen:
  assumes "packFile H gz level rootPath tree pid f st = Inr st'"
    and "distinct (map hash (t_blobs (fst st)))"
  shows "snd st + seen (H c) (fst st)
           + (if readFileSync rootPath tree (absolutePath f) = Inr c then 1 else 0)
         \<le> snd st' + seen (H c) (fst st')
       \<and> distinct (map hash (t_blobs (fst st')))
       \<and> (hasBlob (H c) (fst st) \<or> readFileSync rootPath tree (absolutePath f) = Inr c
            \<longrightarrow> hasBlob (H c) (fst st'))"
proof -
  obtain bs where r: "readFileSync rootPath tree (absolutePath f) = Inr bs"
    and s': "fst st' = insertFile pid (relativePath f) (H bs) (mode f) (mtime f)
                     (insertBlob (stored_blob H gz level bs) (fst st))"
    and d': "snd st' = (if hasBlob (H bs) (fst st) then Suc (snd st) else snd st)"
    using packFile_Inr [OF assms(1)] by blast
  let ?s1 = "insertBlob (stored_blob H gz level bs) (fst st)"
  have h [simp]: "hash (stored_blob H gz level bs) = H bs"
    by (simp add: stored_blob_def)
  have sn: "seen (H c) (fst st') = seen (H c) ?s1"
    unfolding s' by (simp add: seen_def hasBlob_iff blobs_insertFile)
  have mono: "seen (H c) (fst st) \<le> seen (H c) ?s1"
    by (rule seen_mono_insertBlob)
  have has: "hasBlob (H bs) ?s1"
    using insertBlob_has [of "stored_blob H gz level bs" "fst st"] by simp
  have 1: "snd st + seen (H c) (fst st)
           + (if readFileSync rootPath tree (absolutePath f) = Inr c then 1 else 0)
         \<le> snd st' + seen (H c) (fst st')"
  proof (cases "bs = c")
    case True
    then have "seen (H c) ?s1 = 1"
      using has by (simp add: seen_def)
    then show ?thesis
      using True r d' sn by (simp add: seen_def)
  next
    case False
    then show ?thesis
      using r d' sn mono by simp
  qed
  have 2: "distinct (map hash (t_blobs (fst st')))"
    unfolding s' using assms(2) by (auto simp: blobs_insertFile blobs_insertBlob hasBlob_iff)
  have e: "hasBlob (H c) (fst st') = hasBlob (H c) ?s1"
    unfolding s' by (simp add: hasBlob_iff blobs_insertFile)
  have m: "hasBlob (H c) (fst st) \<Longrightarrow> hasBlob (H c) ?s1"
    by (auto simp: hasBlob_iff blobs_insertBlob)
  have 3: "hasBlob (H c) (fst st) \<or> readFileSync rootPath tree (absolutePath f) = Inr c
            \<longrightarrow> hasBlob (H c) (fst st')"
    using r has m e by auto
  show ?thesis
    using 1 2 3 by (intro conjI) assumption+
qed

lemma packFilesOf_seen:
  assumes "packFilesOf H gz level rootPath tree pid fs st = Inr st'"
    and "distinct (map hash (t_blobs (fst st)))"
  shows "snd st + seen (H c) (fst st) + same_bytes rootPath tree c fs
         \<le> snd st' + seen (H c) (fst st')
       \<and> distinct (map hash (t_blobs (fst st')))
       \<and> (hasBlob (H c) (fst st) \<or> 1 \<le> same_bytes rootPath tree c fs
            \<longrightarrow> hasBlob (H c) (fst st'))"
  using assms
proof (induction fs arbitrary: st)
  case Nil
  then show ?case by (simp add: same_bytes_def)
next
  case (Cons f fs)
  obtain st1 where 1: "packFile H gz level rootPath tree pid f st = Inr st1"
    and 2: "packFilesOf H gz level rootPath tree pid fs st1 = Inr st'"
    using Cons.prems(1) by (auto split: sum.splits)
  note a = packFile_seen [OF 1 Cons.prems(2), of c]
  note b = Cons.IH [OF 2 a [THEN conjunct2, THEN conjunct1]]
  show ?case
    using a b by (auto simp: same_bytes_def)
qed

lemma packPackages_seen:
  assumes "packPackages H gz level rootPath tree pkgs st = Inr st'"
    and "distinct (map hash (t_blobs (fst st)))"
  shows "snd st + seen (H c) (fst st) + same_bytes rootPath tree c (concat (map files pkgs))
         \<le> snd st' + seen (H c) (fst st')
       \<and> distinct (map hash (t_blobs (fst st')))
       \<and> (hasBlob (H c) (fst st) \<or> 1 \<le> same_bytes rootPath tree c (concat (map files pkgs))
            \<longrightarrow> hasBlob (H c) (fst st'))"
  using assms
proof (induction pkgs arbitrary: st)
  case Nil
  then show ?case by (simp add: same_bytes_def)
next
  case (Cons pkg pkgs)
  let ?ins = "insertPackage \<lparr>name = name pkg, version = version pkg, path = path pkg\<rparr> (fst st)"
  obtain st1 where 1: "packFilesOf H gz level rootPath tree (fst ?ins) (files pkg) (snd ?ins, snd st) = Inr st1"
    and 2: "packPackages H gz level rootPath tree pkgs st1 = Inr st'"
    using Cons.prems(1) by (auto simp: Let_def split: sum.splits)
  have d0: "distinct (map hash (t_blobs (fst (snd ?ins, snd st))))"
    using Cons.prems(2) by (simp add: blobs_insertPackage)
  have e0: "seen (H c) (snd ?ins) = seen (H c) (fst st)" "hasBlob (H c) (snd ?ins) = hasBlob (H c) (fst st)"
    by (simp_all add: seen_def hasBlob_iff blobs_insertPackage)
  note a = packFilesOf_seen [OF 1 d0, of c]
  note b = Cons.IH [OF 2 a [THEN conjunct2, THEN conjunct1]]
  show ?case
    using a b e0 by (auto simp: same_bytes_def)
qed

text \<open>
  C3, as amended. Deduplication. When the scanner emits \<open>n\<close> file entries, \<open>n\<close> at
  least 1, whose files hold the same bytes, the database a run of \<open>pack\<close> leaves has
  exactly one blob row under the digest of those bytes, and the deduplicated count of the
  run is at least \<open>n - 1\<close>.
\<close>

theorem pack_deduplicates:
  assumes "pack H gz jp opts env tree = Inr (s, d)"
    and "scanNodeModules jp (source opts) tree = Inr (r::ScanResult)"
    and "1 \<le> same_bytes (source opts) tree c (concat (map files (packages r)))"
  shows "length (blob_rows (H c) s) = 1
       \<and> same_bytes (source opts) tree c (concat (map files (packages r))) - 1 \<le> d"
proof -
  obtain r' :: ScanResult and s0
    where r': "scanNodeModules jp (source opts) tree = Inr r'"
      and p: "packFiles H gz (compressionLevel opts) (source opts) tree (packages r') s0 = Inr (s, d)"
      and e: "t_blobs s0 = []"
    using pack_Inr [OF assms(1)] by blast
  have rr: "r' = r"
    using r' assms(2) by simp
  note a = packPackages_seen [OF p [unfolded packFiles_def rr], of c]
  have has: "hasBlob (H c) s" and dist: "distinct (map hash (t_blobs s))"
    and le: "same_bytes (source opts) tree c (concat (map files (packages r))) \<le> d + seen (H c) s"
    using a e assms(3) by (auto simp: seen_def hasBlob_iff)
  have "length (blob_rows (H c) s) \<le> 1"
    unfolding blob_rows_def by (rule distinct_key_filter [OF dist])
  moreover have "blob_rows (H c) s \<noteq> []"
    using has by (simp add: blob_rows_def hasBlob_def find_None_filter)
  ultimately have "length (blob_rows (H c) s) = 1"
    by (cases "blob_rows (H c) s") auto
  then show ?thesis
    using le by (simp add: seen_def split: if_splits)
qed

text \<open>The sample run, evaluated.\<close>

lemma scan_dup:
  "scanNodeModules sample_json ''/p/node_modules'' (Some tree_dup) = Inr dup_scan"
  by (simp add: scanNodeModules_def isPnpmStructure_def existsSync_def tree_dup_def
        dup_entries_def findPackageDirs_def startsWith_def path_join_def path_relative_def
        S_IFREG_def parsePackageJson_def sample_json_def js_or_def dup_scan_def)

lemma pack_dup:
  "pack sample_hash sample_gz sample_json sample_opts sample_env (Some tree_dup) = Inr (db_dup, 2)"
  by (simp add: pack_def sample_opts_def sample_env_def existsSync_def tree_dup_def
        dup_entries_def scanNodeModules_def isPnpmStructure_def findPackageDirs_def
        startsWith_def path_join_def path_relative_def S_IFREG_def parsePackageJson_def
        sample_json_def js_or_def packFiles_def packFile_def readFileSync_def resolve_path_def components_def
        newStore_def initSchema_def setMetadata_def empty_db_def SCHEMA_VERSION_def
        insertPackage_def insertBlob_def insertFile_def hasBlob_def next_id_def
        same_package_def same_file_def sample_hash_def sample_gz_def db_dup_def Let_def
        cong: let_weak_cong)

theorem pack_digest_correct_witness:
  "(\<forall>bs. sample_gunz (sample_gz (compressionLevel sample_opts) bs) = Some bs)
   \<and> pack sample_hash sample_gz sample_json sample_opts sample_env (Some tree_dup)
       = Inr (db_dup, 2)
   \<and> list_all (\<lambda>f. \<exists>b \<in> set (t_blobs db_dup). hash b = blobHash f
          \<and> (\<exists>bs. sample_gunz (content b) = Some bs \<and> sample_hash bs = blobHash f))
        (t_files db_dup)
   \<and> distinct (map hash (t_blobs db_dup))"
proof -
  have c: "\<And>bs. sample_gunz (sample_gz (compressionLevel sample_opts) bs) = Some bs"
    by (simp add: sample_gz_def)
  show ?thesis
    using pack_digest_correct [where gunz = sample_gunz and gz = sample_gz, OF c pack_dup] c pack_dup
    by simp
qed

lemma same_bytes_dup:
  "same_bytes ''/p/node_modules'' (Some tree_dup) ''hello''
     (concat (map files (packages dup_scan))) = 2"
  by (simp add: same_bytes_def dup_scan_def readFileSync_def resolve_path_def components_def
        tree_dup_def dup_entries_def)

theorem pack_deduplicates_witness:
  "pack sample_hash sample_gz sample_json sample_opts sample_env (Some tree_dup) = Inr (db_dup, 2)
   \<and> scanNodeModules sample_json (source sample_opts) (Some tree_dup) = Inr dup_scan
   \<and> same_bytes (source sample_opts) (Some tree_dup) ''hello''
        (concat (map files (packages dup_scan))) = 2
   \<and> length (blob_rows (sample_hash ''hello'') db_dup) = 1"
proof -
  have src: "source sample_opts = ''/p/node_modules''"
    by (simp add: sample_opts_def)
  have sc: "scanNodeModules sample_json (source sample_opts) (Some tree_dup) = Inr dup_scan"
    unfolding src by (rule scan_dup)
  have n: "same_bytes (source sample_opts) (Some tree_dup) ''hello''
             (concat (map files (packages dup_scan))) = 2"
    unfolding src by (rule same_bytes_dup)
  have "1 \<le> same_bytes (source sample_opts) (Some tree_dup) ''hello''
             (concat (map files (packages dup_scan)))"
    using n by simp
  from pack_deduplicates [OF pack_dup sc this] show ?thesis
    using pack_dup sc n by simp
qed

text \<open>
  C3 as it is stated counts the files of the tree. The sample tree holds one file with
  the bytes of the lockfile, in its root; the scanner does not enter it, and the database
  has no blob row for those bytes.
\<close>

theorem pack_deduplicates_counterexample:
  "pack sample_hash sample_gz sample_json sample_opts sample_env (Some tree_dup) = Inr (db_dup, 2)
   \<and> files_with_bytes ''lock'' dup_entries = 1
   \<and> length (blob_rows (sample_hash ''lock'') db_dup) = 0"
  using pack_dup
  by (simp add: files_with_bytes_def dup_entries_def blob_rows_def db_dup_def sample_hash_def)

end
